theory Spec2Isabelle
  imports Complex_Main
begin

section \<open>Price text parser (utils/helpers.js, parsePrice)\<close>

text \<open>
  The number parseFloat returns is modelled by the decimal value it denotes: \<open>Num q\<close>
  stands for the double nearest to the rational \<open>q\<close>, \<open>NaN\<close> for not-a-number. The
  value \<open>null\<close> of \<open>number|null\<close> is \<open>None\<close>.
\<close>

datatype jsnum = Num rat | NaN

definition is_digit :: "char \<Rightarrow> bool" where
  "is_digit c = (c \<in> set ''0123456789'')"

text \<open>The character class \<open>[\d.]\<close> of the regular expression in parsePrice.\<close>

definition is_digit_or_dot :: "char \<Rightarrow> bool" where
  "is_digit_or_dot c = (is_digit c \<or> c = CHR ''.'')"

definition digit_val :: "char \<Rightarrow> nat" where
  "digit_val c = of_char c - 48"

definition digits_val :: "string \<Rightarrow> nat" where
  "digits_val ds = foldl (\<lambda>acc c. 10 * acc + digit_val c) 0 ds"

text \<open>
  The builtin \<open>parseFloat\<close> reads the longest prefix of its argument that is a decimal
  literal (digits, optionally a point and further digits, or a point followed by digits)
  and returns NaN when there is none. Leading white space, a sign, an exponent and the
  word Infinity are left out: parsePrice only passes strings of digits and points, where
  none of them can occur.
\<close>

definition parseFloat :: "string \<Rightarrow> jsnum" where
  "parseFloat s =
     (let ip = takeWhile is_digit s in
      case dropWhile is_digit s of
        c # r \<Rightarrow>
          if c = CHR ''.'' then
            (let fp = takeWhile is_digit r in
             if ip = [] \<and> fp = [] then NaN
             else Num (of_nat (digits_val ip) + of_nat (digits_val fp) / 10 ^ length fp))
          else if ip = [] then NaN else Num (of_nat (digits_val ip))
      | [] \<Rightarrow> if ip = [] then NaN else Num (of_nat (digits_val ip)))"

text \<open>\<open>text.replace(/,/g, '')\<close>: every comma is removed.\<close>

definition remove_commas :: "string \<Rightarrow> string" where
  "remove_commas text = filter (\<lambda>c. c \<noteq> CHR '','') text"

text \<open>
  \<open>s.match(/[\d.]+/)\<close>: the leftmost match of a greedy, non-empty run of the class;
  \<open>None\<close> is the \<open>null\<close> of a failed match, \<open>Some m\<close> carries \<open>match[0]\<close>.
\<close>

definition match_digits_dots :: "string \<Rightarrow> string option" where
  "match_digits_dots s =
     (let m = takeWhile is_digit_or_dot (dropWhile (\<lambda>c. \<not> is_digit_or_dot c) s)
      in if m = [] then None else Some m)"

definition parsePrice :: "string \<Rightarrow> jsnum option" where
  "parsePrice text =
     (case match_digits_dots (remove_commas text) of
        Some m \<Rightarrow> Some (parseFloat m)
      | None \<Rightarrow> None)"

section \<open>The browser driver as an environment\<close>

text \<open>
  The page objects and helpers only talk to the browser through the driver's asynchronous
  calls. Every awaited call is an action; the page answers it by resolving (\<open>None\<close>) or by
  rejecting with an error (\<open>Some e\<close>), and its answer may depend on everything that has
  happened so far. The history is the trace of actions with their outcomes; an awaited
  call appends to it. Times are milliseconds, kept as rationals since the code divides
  them. Console output does not influence control flow and is left out.
\<close>

type_synonym ms = rat

datatype locator = Loc string | First locator | Last locator | Nth locator int

record url =
  address :: string
  searchParams :: "(string \<times> string) list"
  fragment :: string

datatype handle = ThisPage | NewPage nat

datatype action =
    WaitForVisible locator ms
  | Click locator "ms option"
  | Fill locator string
  | Press locator string
  | Goto url ms
  | WaitForLoadState handle ms
  | Sleep ms

datatype error = TimeoutError | TypeError | Error string | DriverError string

type_synonym event = "action \<times> error option"

type_synonym trace = "event list"

text \<open>
  \<open>outcome\<close> answers the awaited driver calls, \<open>count_of\<close> is \<open>locator.count()\<close>,
  \<open>page_url\<close> is \<open>new URL(page.url())\<close> (\<open>None\<close> when the constructor rejects the
  address with a TypeError), and \<open>popup_event\<close> is
  \<open>context.waitForEvent('page').catch(() => null)\<close>.
\<close>

record page =
  outcome :: "trace \<Rightarrow> action \<Rightarrow> error option"
  count_of :: "trace \<Rightarrow> locator \<Rightarrow> nat"
  page_url :: "trace \<Rightarrow> url option"
  popup_event :: "trace \<Rightarrow> handle option"

definition perform :: "page \<Rightarrow> action \<Rightarrow> trace \<Rightarrow> (error + unit) \<times> trace" where
  "perform pg a tr =
     (case outcome pg tr a of
        None \<Rightarrow> (Inr (), tr @ [(a, None)])
      | Some e \<Rightarrow> (Inl e, tr @ [(a, Some e)]))"

text \<open>\<open>sleep(ms)\<close> is a timer promise: it always resolves.\<close>

definition sleep :: "ms \<Rightarrow> trace \<Rightarrow> trace" where
  "sleep t tr = tr @ [(Sleep t, None)]"

section \<open>Popup dismisser (utils/helpers.js, dismissPopups)\<close>

definition closeSelectors :: "string list" where
  \<open>closeSelectors =
     [''[data-spm="close"]'',
      ''.close-btn'',
      ''.lazyload-wrapper .close'',
      ''.next-dialog-close'',
      ''button[aria-label="Close"]'',
      ''.mod-close'',
      ''.popup-close'']\<close>

text \<open>
  The \<open>for\<close> loop over the selectors. The \<open>try\<close> block holds the visibility wait and
  the click; the empty \<open>catch\<close> moves on to the next selector whichever of them threw.
  \<open>wait\<close> is \<open>timeout / closeSelectors.length\<close>.
\<close>

fun dismiss_each :: "page \<Rightarrow> ms \<Rightarrow> string list \<Rightarrow> trace \<Rightarrow> (error + unit) \<times> trace" where
  "dismiss_each pg wait [] tr = (Inr (), tr)"
| "dismiss_each pg wait (selector # rest) tr =
     (case perform pg (WaitForVisible (First (Loc selector)) wait) tr of
        (Inl _, tr1) \<Rightarrow> dismiss_each pg wait rest tr1
      | (Inr _, tr1) \<Rightarrow>
          (case perform pg (Click (First (Loc selector)) None) tr1 of
             (Inl _, tr2) \<Rightarrow> dismiss_each pg wait rest tr2
           | (Inr _, tr2) \<Rightarrow> (Inr (), tr2)))"

definition dismissPopups :: "page \<Rightarrow> ms \<Rightarrow> trace \<Rightarrow> (error + unit) \<times> trace" where
  "dismissPopups pg timeout tr =
     dismiss_each pg (timeout / of_nat (length closeSelectors)) closeSelectors tr"

section \<open>Retrying click (utils/helpers.js, safeClick)\<close>

text \<open>
  The loop \<open>for (let attempt = 1; attempt <= retries; attempt++)\<close>, entered at
  \<open>attempt\<close>. Falling out of the loop resolves the promise with no value.
\<close>

function safeClick_from :: "page \<Rightarrow> locator \<Rightarrow> int \<Rightarrow> int \<Rightarrow> trace \<Rightarrow> (error + unit) \<times> trace" where
  "safeClick_from pg loc retries attempt tr =
     (if attempt \<le> retries then
        (case perform pg (Click loc (Some 8000)) tr of
           (Inr _, tr1) \<Rightarrow> (Inr (), tr1)
         | (Inl err, tr1) \<Rightarrow>
             if attempt = retries then (Inl err, tr1)
             else safeClick_from pg loc retries (attempt + 1) (sleep 1000 tr1))
      else (Inr (), tr))"
  by pat_completeness auto
termination
  by (relation "measure (\<lambda>(pg, loc, retries, attempt, tr). nat (retries + 1 - attempt))") auto

declare safeClick_from.simps [simp del]

definition safeClick :: "page \<Rightarrow> locator \<Rightarrow> int \<Rightarrow> trace \<Rightarrow> (error + unit) \<times> trace" where
  "safeClick pg loc retries tr = safeClick_from pg loc retries 1 tr"

section \<open>Search results page (pages/SearchResultsPage.js)\<close>

subsection \<open>Numbers as text\<close>

text \<open>
  \<open>String(x)\<close> and \<open>`${x}`\<close> apply the builtin Number::toString (radix 10) to a number.
  A number is given the way that operation sees it: not-a-number, an infinity, or a finite
  number with its sign and the two integers \<open>s\<close> and \<open>n\<close> of the shortest decimal that
  denotes it. The decimal digits of \<open>s\<close> are its \<open>k\<close> significant digits, and the number
  is \<open>s * 10^(n - k)\<close>; zero is \<open>s = 0\<close>. So 500 is \<open>Finite False 5 3\<close>, 5000 is
  \<open>Finite False 5 4\<close>, 99.5 is \<open>Finite False 995 2\<close> and \<open>10^21\<close> is \<open>Finite False 1 22\<close>.
  Which \<open>s\<close> and \<open>n\<close> belong to a given double is floating-point arithmetic and stays
  outside; the text produced from them is exact.
\<close>

datatype number = Finite bool nat int | PlusInfinity | MinusInfinity | NotANumber

text \<open>The decimal digits of a natural number, most significant first.\<close>

definition digit_char :: "nat \<Rightarrow> char" where
  "digit_char d = ''0123456789'' ! d"

fun nat_digits :: "nat \<Rightarrow> string" where
  "nat_digits n =
     (if n < 10 then [digit_char n]
      else nat_digits (n div 10) @ [digit_char (n mod 10)])"

declare nat_digits.simps [simp del]


text \<open>
  Number::toString on a positive finite number: plain digits with trailing zeros for
  \<open>k \<le> n \<le> 21\<close>, a decimal point inside the digits for \<open>0 < n < k\<close>, leading
  \<open>0.00\<close> for \<open>-6 < n \<le> 0\<close>, and the exponent form \<open>d.ddde+x\<close> otherwise.
\<close>

definition exponent_text :: "int \<Rightarrow> string" where
  "exponent_text e = (if e < 0 then ''-'' else ''+'') @ nat_digits (nat \<bar>e\<bar>)"

definition positive_toString :: "nat \<Rightarrow> int \<Rightarrow> string" where
  "positive_toString s n =
     (let ds = nat_digits s; k = int (length ds) in
      if k \<le> n \<and> n \<le> 21 then ds @ replicate (nat (n - k)) CHR ''0''
      else if 0 < n \<and> n \<le> 21 then take (nat n) ds @ ''.'' @ drop (nat n) ds
      else if - 6 < n \<and> n \<le> 0 then ''0.'' @ replicate (nat (- n)) CHR ''0'' @ ds
      else if k = 1 then ds @ ''e'' @ exponent_text (n - 1)
      else take 1 ds @ ''.'' @ drop 1 ds @ ''e'' @ exponent_text (n - 1))"

definition String :: "number \<Rightarrow> string" where
  "String x =
     (case x of
        NotANumber \<Rightarrow> ''NaN''
      | PlusInfinity \<Rightarrow> ''Infinity''
      | MinusInfinity \<Rightarrow> ''-Infinity''
      | Finite negative s n \<Rightarrow>
          if s = 0 then ''0''
          else if negative then ''-'' @ positive_toString s n
          else positive_toString s n)"

subsection \<open>Configuration (config/constants.js) and locators (constructor)\<close>

text \<open>\<open>PRICE_MIN: 500\<close> and \<open>PRICE_MAX: 5000\<close>.\<close>

definition PRICE_MIN :: number where
  "PRICE_MIN = Finite False 5 3"

definition PRICE_MAX :: number where
  "PRICE_MAX = Finite False 5 4"

definition RESULTS_WAIT :: ms where
  "RESULTS_WAIT = 4000"

definition productCards :: locator where
  \<open>productCards =
     Loc ''.product-card, [data-qa-locator="product-item"], .item--ZJRDn, li[class*="product"]''\<close>

definition priceMinInput :: locator where
  \<open>priceMinInput =
     First (Loc ''input[placeholder*="Min"], input[name="min_price"], .price-range-filter input'')\<close>

definition priceMaxInput :: locator where
  \<open>priceMaxInput =
     Last (Loc ''input[placeholder*="Max"], input[name="max_price"], .price-range-filter input'')\<close>

definition priceApplyBtn :: locator where
  \<open>priceApplyBtn =
     First (Loc ''button[data-qa-locator="filter-price-button"], button.price-filter-btn, .price-range-filter button'')\<close>

subsection \<open>Query parameters\<close>

text \<open>
  \<open>URLSearchParams.set(name, v)\<close>: the first pair called \<open>name\<close> takes the value and the
  other pairs of that name are removed; without such a pair a new one is appended.
  \<open>URLSearchParams.get\<close> returns the value of the first pair of the name,
  \<open>URLSearchParams.getAll\<close> the values of all of them.
\<close>

fun searchParams_set :: "string \<Rightarrow> string \<Rightarrow> (string \<times> string) list \<Rightarrow> (string \<times> string) list" where
  "searchParams_set name v [] = [(name, v)]"
| "searchParams_set name v (p # ps) =
     (if fst p = name then (name, v) # filter (\<lambda>q. fst q \<noteq> name) ps
      else p # searchParams_set name v ps)"



subsection \<open>applyPriceFilter\<close>

text \<open>
  The body of the outer \<open>try\<close>: wait for the minimum input, fill both inputs, click the
  apply button and, when that click throws, press Enter in the minimum input.
\<close>

definition sidebarPath :: "page \<Rightarrow> number \<Rightarrow> number \<Rightarrow> trace \<Rightarrow> (error + unit) \<times> trace" where
  "sidebarPath pg min_price max_price tr =
     (case perform pg (WaitForVisible priceMinInput 8000) tr of
        (Inl e, tr1) \<Rightarrow> (Inl e, tr1)
      | (Inr _, tr1) \<Rightarrow>
     (case perform pg (Fill priceMinInput (String min_price)) tr1 of
        (Inl e, tr2) \<Rightarrow> (Inl e, tr2)
      | (Inr _, tr2) \<Rightarrow>
     (case perform pg (Fill priceMaxInput (String max_price)) tr2 of
        (Inl e, tr3) \<Rightarrow> (Inl e, tr3)
      | (Inr _, tr3) \<Rightarrow>
     (case perform pg (Click priceApplyBtn (Some 5000)) tr3 of
        (Inr _, tr4) \<Rightarrow> (Inr (), tr4)
      | (Inl _, tr4) \<Rightarrow> perform pg (Press priceMinInput ''Enter'') tr4))))"

text \<open>
  The body of the outer \<open>catch\<close>: the current address with its \<open>price\<close> parameter set to
  \<open>`${min}-${max}`\<close>, and the navigation to it. The address travels in parsed form; its
  serialisation by \<open>url.toString()\<close> is the driver's business.
\<close>

definition priceParam :: "number \<Rightarrow> number \<Rightarrow> string" where
  "priceParam min_price max_price = String min_price @ ''-'' @ String max_price"

definition filteredUrl :: "url \<Rightarrow> number \<Rightarrow> number \<Rightarrow> url" where
  "filteredUrl u min_price max_price =
     u\<lparr>searchParams := searchParams_set ''price'' (priceParam min_price max_price) (searchParams u)\<rparr>"

definition urlPath :: "page \<Rightarrow> number \<Rightarrow> number \<Rightarrow> trace \<Rightarrow> (error + unit) \<times> trace" where
  "urlPath pg min_price max_price tr =
     (case page_url pg tr of
        None \<Rightarrow> (Inl TypeError, tr)
      | Some u \<Rightarrow> perform pg (Goto (filteredUrl u min_price max_price) 30000) tr)"

definition applyPriceFilter :: "page \<Rightarrow> number \<Rightarrow> number \<Rightarrow> trace \<Rightarrow> (error + unit) \<times> trace" where
  "applyPriceFilter pg min_price max_price tr =
     (case (case sidebarPath pg min_price max_price tr of
              (Inr _, tr1) \<Rightarrow> (Inr (), tr1)
            | (Inl _, tr1) \<Rightarrow> urlPath pg min_price max_price tr1) of
        (Inl e, tr2) \<Rightarrow> (Inl e, tr2)
      | (Inr _, tr2) \<Rightarrow> dismissPopups pg 4000 (sleep RESULTS_WAIT tr2))"

subsection \<open>openProduct\<close>

text \<open>
  \<open>Promise.all\<close> of the new-tab event (made harmless by its \<open>catch\<close>) and the click
  rejects exactly when the click does, and otherwise yields the event's page or \<open>null\<close>;
  the model asks for the click first and for the event afterwards.
\<close>

definition openProduct :: "page \<Rightarrow> int \<Rightarrow> trace \<Rightarrow> (error + handle) \<times> trace" where
  "openProduct pg index tr =
     (case perform pg (WaitForVisible (First productCards) 15000) tr of
        (Inl e, tr1) \<Rightarrow> (Inl e, tr1)
      | (Inr _, tr1) \<Rightarrow>
          (let count = count_of pg tr1 productCards in
           if count = 0 then (Inl (Error ''No products found to open''), tr1)
           else
             (let safeIndex = min index (int count - 1);
                  card = Nth productCards safeIndex
              in case perform pg (Click card (Some 10000)) tr1 of
                   (Inl e, tr2) \<Rightarrow> (Inl e, tr2)
                 | (Inr _, tr2) \<Rightarrow>
                     (case popup_event pg tr2 of
                        Some newPage \<Rightarrow>
                          (case perform pg (WaitForLoadState newPage 30000) tr2 of
                             (Inl e, tr3) \<Rightarrow> (Inl e, tr3)
                           | (Inr _, tr3) \<Rightarrow> (Inr newPage, tr3))
                      | None \<Rightarrow>
                          (case perform pg (WaitForLoadState ThisPage 30000) tr2 of
                             (Inl e, tr3) \<Rightarrow> (Inl e, tr3)
                           | (Inr _, tr3) \<Rightarrow> (Inr ThisPage, tr3))))))"

section \<open>Traces and pages used in the statements\<close>

text \<open>
  The trace left by a run of failed click attempts of safeClick, one error per attempt,
  each followed by the pause before the next attempt; and the number of click attempts
  safeClick has made on a locator.
\<close>

fun failed_attempts :: "locator \<Rightarrow> error list \<Rightarrow> trace" where
  "failed_attempts loc [] = []"
| "failed_attempts loc (e # es) =
     (Click loc (Some 8000), Some e) # (Sleep 1000, None) # failed_attempts loc es"

definition click_attempts :: "locator \<Rightarrow> trace \<Rightarrow> nat" where
  "click_attempts loc tr = length (filter (\<lambda>ev. fst ev = Click loc (Some 8000)) tr)"

text \<open>
  The events that are clicks, and a page on which the first \<open>k\<close> clicks are rejected and
  everything else resolves.
\<close>

definition is_click :: "event \<Rightarrow> bool" where
  "is_click ev = (case fst ev of Click _ _ \<Rightarrow> True | _ \<Rightarrow> False)"

definition flaky_page :: "nat \<Rightarrow> page" where
  "flaky_page k =
     \<lparr>outcome = (\<lambda>tr a. case a of
                     Click _ _ \<Rightarrow>
                       if length (filter is_click tr) < k then Some (DriverError ''detached'')
                       else None
                   | _ \<Rightarrow> None),
      count_of = (\<lambda>tr l. 1),
      page_url = (\<lambda>tr. None),
      popup_event = (\<lambda>tr. None)\<rparr>"

text \<open>
  Two shapes of the events that one run of the popup dismisser may add, for the selectors
  still to try. In both, a selector whose visibility wait is rejected is followed by the
  next selector, and a visible selector is clicked. \<open>stops_at_first_visible\<close> is the
  reading "the run ends with the click on the first visible selector, however the click
  ends"; \<open>stops_at_first_clicked\<close> is "the run ends with the first click that resolves,
  and a rejected click is followed by the next selector".
\<close>

fun stops_at_first_visible :: "ms \<Rightarrow> string list \<Rightarrow> trace \<Rightarrow> bool" where
  "stops_at_first_visible wait [] new = (new = [])"
| "stops_at_first_visible wait (s # rest) [] = False"
| "stops_at_first_visible wait (s # rest) ((a, Some e) # new) =
     (a = WaitForVisible (First (Loc s)) wait \<and> stops_at_first_visible wait rest new)"
| "stops_at_first_visible wait (s # rest) [(a, None)] = False"
| "stops_at_first_visible wait (s # rest) ((a, None) # (b, r) # new) =
     (a = WaitForVisible (First (Loc s)) wait \<and> b = Click (First (Loc s)) None \<and> new = [])"

fun stops_at_first_clicked :: "ms \<Rightarrow> string list \<Rightarrow> trace \<Rightarrow> bool" where
  "stops_at_first_clicked wait [] new = (new = [])"
| "stops_at_first_clicked wait (s # rest) [] = False"
| "stops_at_first_clicked wait (s # rest) ((a, Some e) # new) =
     (a = WaitForVisible (First (Loc s)) wait \<and> stops_at_first_clicked wait rest new)"
| "stops_at_first_clicked wait (s # rest) [(a, None)] = False"
| "stops_at_first_clicked wait (s # rest) ((a, None) # (b, Some e) # new) =
     (a = WaitForVisible (First (Loc s)) wait \<and> b = Click (First (Loc s)) None \<and>
      stops_at_first_clicked wait rest new)"
| "stops_at_first_clicked wait (s # rest) ((a, None) # (b, None) # new) =
     (a = WaitForVisible (First (Loc s)) wait \<and> b = Click (First (Loc s)) None \<and> new = [])"

text \<open>The clicks that went through: the popups actually dismissed.\<close>

definition dismissals :: "trace \<Rightarrow> event list" where
  "dismissals tr = filter (\<lambda>ev. is_click ev \<and> snd ev = None) tr"

text \<open>
  A page with two overlays: every close control is visible, but the click on the first
  selector's control is rejected.
\<close>

definition stubborn_popup_page :: page where
  "stubborn_popup_page =
     \<lparr>outcome = (\<lambda>tr a. if a = Click (First (Loc (hd closeSelectors))) None
                          then Some (Error ''element intercepts pointer events'') else None),
      count_of = (\<lambda>tr l. 0),
      page_url = (\<lambda>tr. None),
      popup_event = (\<lambda>tr. None)\<rparr>"




text \<open>The addresses navigated to, in order.\<close>

definition navigations :: "trace \<Rightarrow> url list" where
  "navigations tr = concat (map (\<lambda>ev. case fst ev of Goto u _ \<Rightarrow> [u] | _ \<Rightarrow> []) tr)"

text \<open>
  Example pages: a results address that already carries two \<open>price\<close> parameters; a page
  whose inputs are visible but reject \<open>fill\<close>; a page without the sidebar and without
  network; a results page without any product card (so that waiting for the first card
  times out and \<open>count()\<close> is 0); a page with five product cards where every action
  resolves.
\<close>

definition results_url :: url where
  "results_url =
     \<lparr>address = ''https://www.daraz.pk/catalog/'',
      searchParams = [(''q'', ''electronics''), (''price'', ''100-200''), (''page'', ''2''), (''price'', ''1-2'')],
      fragment = ''''\<rparr>"

definition fill_fails_page :: page where
  "fill_fails_page =
     \<lparr>outcome = (\<lambda>tr a. case a of Fill _ _ \<Rightarrow> Some (Error ''element is not editable'') | _ \<Rightarrow> None),
      count_of = (\<lambda>tr l. 0),
      page_url = (\<lambda>tr. Some results_url),
      popup_event = (\<lambda>tr. None)\<rparr>"

definition offline_page :: page where
  "offline_page =
     \<lparr>outcome = (\<lambda>tr a. case a of
                     WaitForVisible _ _ \<Rightarrow> Some TimeoutError
                   | Goto _ _ \<Rightarrow> Some (Error ''net::ERR_INTERNET_DISCONNECTED'')
                   | _ \<Rightarrow> None),
      count_of = (\<lambda>tr l. 0),
      page_url = (\<lambda>tr. Some results_url),
      popup_event = (\<lambda>tr. None)\<rparr>"

definition empty_results_page :: page where
  "empty_results_page =
     \<lparr>outcome = (\<lambda>tr a. case a of WaitForVisible _ _ \<Rightarrow> Some TimeoutError | _ \<Rightarrow> None),
      count_of = (\<lambda>tr l. 0),
      page_url = (\<lambda>tr. Some results_url),
      popup_event = (\<lambda>tr. None)\<rparr>"

definition five_cards_page :: page where
  "five_cards_page =
     \<lparr>outcome = (\<lambda>tr a. None),
      count_of = (\<lambda>tr l. 5),
      page_url = (\<lambda>tr. Some results_url),
      popup_event = (\<lambda>tr. None)\<rparr>"

section \<open>Properties of the price text parser\<close>

text \<open>
  C1: the four rows of the specification's table hold, but the general statement does
  not. In "Rs. 1,299" the first run of digits is 1299; the regular expression, whose class
  also admits a run made of points only, matches the point of "Rs." first, and parsePrice
  returns NaN instead of 1299.
\<close>

theorem parsePrice_point_before_price_NaN:
  "parsePrice ''Rs. 1,299'' = Some NaN \<and>
   parsePrice ''PKR 1,299'' = Some (Num 1299) \<and>
   parsePrice ''12.50'' = Some (Num 12.5) \<and>
   parsePrice '''' = None \<and>
   parsePrice ''Free'' = None"
  by (simp add: parsePrice_def match_digits_dots_def remove_commas_def parseFloat_def
      is_digit_or_dot_def is_digit_def digits_val_def digit_val_def)

text \<open>
  C9: a text without any digit has no numeric token, and parsePrice should answer null
  for it. On "Rs." the run matched by the regular expression is the lone point, and
  parseFloat of it is NaN: parsePrice returns NaN, not null.
\<close>

theorem parsePrice_lone_point_NaN:
  "parsePrice ''Rs.'' = Some NaN"
  by (simp add: parsePrice_def match_digits_dots_def remove_commas_def parseFloat_def
      is_digit_or_dot_def is_digit_def)

section \<open>Properties of safeClick\<close>

lemma safeClick_from_succeeds:
  assumes "attempt + int (length errs) \<le> retries"
    and "\<forall>i<length errs. outcome pg (tr @ failed_attempts loc (take i errs)) (Click loc (Some 8000)) = Some (errs ! i)"
    and "outcome pg (tr @ failed_attempts loc errs) (Click loc (Some 8000)) = None"
  shows "safeClick_from pg loc retries attempt tr =
           (Inr (), tr @ failed_attempts loc errs @ [(Click loc (Some 8000), None)])"
  using assms
proof (induction errs arbitrary: attempt tr)
  case Nil
  then show ?case by (subst safeClick_from.simps) (simp add: perform_def)
next
  case (Cons e es)
  let ?c = "Click loc (Some 8000)"
  let ?tr = "tr @ [(?c, Some e), (Sleep 1000, None)]"
  have first: "outcome pg tr ?c = Some e"
    using Cons.prems(2) by fastforce
  have later: "\<forall>i<length es. outcome pg (?tr @ failed_attempts loc (take i es)) ?c = Some (es ! i)"
  proof (intro allI impI)
    fix i assume "i < length es"
    then have "outcome pg (tr @ failed_attempts loc (take (Suc i) (e # es))) ?c = Some ((e # es) ! Suc i)"
      using Cons.prems(2) by (metis Suc_less_eq length_Cons)
    then show "outcome pg (?tr @ failed_attempts loc (take i es)) ?c = Some (es ! i)"
      by simp
  qed
  have last: "outcome pg (?tr @ failed_attempts loc es) ?c = None"
    using Cons.prems(3) by simp
  have "safeClick_from pg loc retries (attempt + 1) ?tr =
          (Inr (), ?tr @ failed_attempts loc es @ [(?c, None)])"
    using Cons.IH [of "attempt + 1" ?tr] Cons.prems(1) later last by simp
  moreover have "attempt \<le> retries" "attempt \<noteq> retries"
    using Cons.prems(1) by simp_all
  then have "safeClick_from pg loc retries attempt tr = safeClick_from pg loc retries (attempt + 1) ?tr"
    using first by (subst safeClick_from.simps) (simp add: perform_def sleep_def)
  ultimately show ?case
    by simp
qed

lemma safeClick_from_exhausts:
  assumes "attempt + int (length errs) = retries"
    and "\<forall>i<length errs. outcome pg (tr @ failed_attempts loc (take i errs)) (Click loc (Some 8000)) = Some (errs ! i)"
    and "outcome pg (tr @ failed_attempts loc errs) (Click loc (Some 8000)) = Some e"
  shows "safeClick_from pg loc retries attempt tr =
           (Inl e, tr @ failed_attempts loc errs @ [(Click loc (Some 8000), Some e)])"
  using assms
proof (induction errs arbitrary: attempt tr)
  case Nil
  then show ?case by (subst safeClick_from.simps) (simp add: perform_def)
next
  case (Cons e0 es)
  let ?c = "Click loc (Some 8000)"
  let ?tr = "tr @ [(?c, Some e0), (Sleep 1000, None)]"
  have first: "outcome pg tr ?c = Some e0"
    using Cons.prems(2) by fastforce
  have later: "\<forall>i<length es. outcome pg (?tr @ failed_attempts loc (take i es)) ?c = Some (es ! i)"
  proof (intro allI impI)
    fix i assume "i < length es"
    then have "outcome pg (tr @ failed_attempts loc (take (Suc i) (e0 # es))) ?c = Some ((e0 # es) ! Suc i)"
      using Cons.prems(2) by (metis Suc_less_eq length_Cons)
    then show "outcome pg (?tr @ failed_attempts loc (take i es)) ?c = Some (es ! i)"
      by simp
  qed
  have last: "outcome pg (?tr @ failed_attempts loc es) ?c = Some e"
    using Cons.prems(3) by simp
  have "safeClick_from pg loc retries (attempt + 1) ?tr =
          (Inl e, ?tr @ failed_attempts loc es @ [(?c, Some e)])"
    using Cons.IH [of "attempt + 1" ?tr] Cons.prems(1) later last by simp
  moreover have "attempt \<le> retries" "attempt \<noteq> retries"
    using Cons.prems(1) by simp_all
  then have "safeClick_from pg loc retries attempt tr = safeClick_from pg loc retries (attempt + 1) ?tr"
    using first by (subst safeClick_from.simps) (simp add: perform_def sleep_def)
  ultimately show ?case
    by simp
qed

lemma click_attempts_failed: "click_attempts loc (failed_attempts loc errs) = length errs"
  by (induction errs) (simp_all add: click_attempts_def)

lemma click_attempts_append: "click_attempts loc (xs @ ys) = click_attempts loc xs + click_attempts loc ys"
  by (simp add: click_attempts_def)

text \<open>
  C2: with the retry ceiling 3, a click that is rejected exactly \<open>k < 3\<close> times (with the
  errors \<open>errs\<close>, \<open>k = length errs\<close>) and then resolves makes safeClick resolve after
  exactly \<open>k + 1\<close> click attempts; a click that is rejected at all three attempts makes
  safeClick reject with the last error after exactly 3 attempts. Consecutive attempts are
  separated by a pause of 1000 ms, as the trace shows.
\<close>

theorem safeClick_retry_ceiling:
  "(length errs < 3 \<and>
    (\<forall>i<length errs. outcome pg (tr @ failed_attempts loc (take i errs)) (Click loc (Some 8000)) = Some (errs ! i)) \<and>
    outcome pg (tr @ failed_attempts loc errs) (Click loc (Some 8000)) = None
    \<longrightarrow> safeClick pg loc 3 tr = (Inr (), tr @ failed_attempts loc errs @ [(Click loc (Some 8000), None)]) \<and>
        click_attempts loc (snd (safeClick pg loc 3 tr)) = click_attempts loc tr + (length errs + 1)) \<and>
   (outcome pg tr (Click loc (Some 8000)) = Some e1 \<and>
    outcome pg (tr @ failed_attempts loc [e1]) (Click loc (Some 8000)) = Some e2 \<and>
    outcome pg (tr @ failed_attempts loc [e1, e2]) (Click loc (Some 8000)) = Some e3
    \<longrightarrow> safeClick pg loc 3 tr = (Inl e3, tr @ failed_attempts loc [e1, e2] @ [(Click loc (Some 8000), Some e3)]) \<and>
        click_attempts loc (snd (safeClick pg loc 3 tr)) = click_attempts loc tr + 3)"
proof (intro conjI impI)
  assume h: "length errs < 3 \<and>
    (\<forall>i<length errs. outcome pg (tr @ failed_attempts loc (take i errs)) (Click loc (Some 8000)) = Some (errs ! i)) \<and>
    outcome pg (tr @ failed_attempts loc errs) (Click loc (Some 8000)) = None"
  then have "1 + int (length errs) \<le> 3" by simp
  with h show r: "safeClick pg loc 3 tr = (Inr (), tr @ failed_attempts loc errs @ [(Click loc (Some 8000), None)])"
    unfolding safeClick_def by (intro safeClick_from_succeeds) simp_all
  show "click_attempts loc (snd (safeClick pg loc 3 tr)) = click_attempts loc tr + (length errs + 1)"
    unfolding r by (simp add: click_attempts_append click_attempts_failed) (simp add: click_attempts_def)
next
  assume h: "outcome pg tr (Click loc (Some 8000)) = Some e1 \<and>
    outcome pg (tr @ failed_attempts loc [e1]) (Click loc (Some 8000)) = Some e2 \<and>
    outcome pg (tr @ failed_attempts loc [e1, e2]) (Click loc (Some 8000)) = Some e3"
  have "\<forall>i<length [e1, e2]. outcome pg (tr @ failed_attempts loc (take i [e1, e2])) (Click loc (Some 8000)) = Some ([e1, e2] ! i)"
    using h by (auto simp: less_Suc_eq)
  then show r: "safeClick pg loc 3 tr = (Inl e3, tr @ failed_attempts loc [e1, e2] @ [(Click loc (Some 8000), Some e3)])"
    unfolding safeClick_def using h by (intro safeClick_from_exhausts) simp_all
  show "click_attempts loc (snd (safeClick pg loc 3 tr)) = click_attempts loc tr + 3"
    unfolding r by (simp add: click_attempts_def)
qed

lemma flaky_click:
  "outcome (flaky_page k) tr (Click loc t) =
     (if length (filter is_click tr) < k then Some (DriverError ''detached'') else None)"
  by (simp add: flaky_page_def)

theorem safeClick_retry_ceiling_witness:
  "safeClick (flaky_page 2) (Loc ''#buy'') 3 [] =
     (Inr (),
      [(Click (Loc ''#buy'') (Some 8000), Some (DriverError ''detached'')), (Sleep 1000, None),
       (Click (Loc ''#buy'') (Some 8000), Some (DriverError ''detached'')), (Sleep 1000, None),
       (Click (Loc ''#buy'') (Some 8000), None)]) \<and>
   safeClick (flaky_page 3) (Loc ''#buy'') 3 [] =
     (Inl (DriverError ''detached''),
      [(Click (Loc ''#buy'') (Some 8000), Some (DriverError ''detached'')), (Sleep 1000, None),
       (Click (Loc ''#buy'') (Some 8000), Some (DriverError ''detached'')), (Sleep 1000, None),
       (Click (Loc ''#buy'') (Some 8000), Some (DriverError ''detached''))])"
  using safeClick_retry_ceiling [where errs = "[DriverError ''detached'', DriverError ''detached'']"
      and pg = "flaky_page 2" and tr = "[]" and loc = "Loc ''#buy''"]
    safeClick_retry_ceiling [where pg = "flaky_page 3" and tr = "[]" and loc = "Loc ''#buy''"
      and ?e1.0 = "DriverError ''detached''" and ?e2.0 = "DriverError ''detached''"
      and ?e3.0 = "DriverError ''detached''"]
  by (simp add: flaky_click is_click_def less_Suc_eq)

text \<open>
  C10: with \<open>retries \<le> 0\<close> the loop body never runs: safeClick resolves without any
  click attempt and leaves the trace as it was.
\<close>

theorem safeClick_no_attempts:
  "retries \<le> 0 \<Longrightarrow>
   safeClick pg loc retries tr = (Inr (), tr) \<and>
   click_attempts loc (snd (safeClick pg loc retries tr)) = click_attempts loc tr"
  by (simp add: safeClick_def safeClick_from.simps)

theorem safeClick_no_attempts_witness:
  "safeClick (flaky_page 3) (Loc ''#buy'') 0 [] = (Inr (), []) \<and>
   safeClick (flaky_page 3) (Loc ''#buy'') (- 2) [] = (Inr (), [])"
  using safeClick_no_attempts [of 0 "flaky_page 3" "Loc ''#buy''" "[]"]
    safeClick_no_attempts [of "- 2" "flaky_page 3" "Loc ''#buy''" "[]"]
  by simp

section \<open>Properties of the popup dismisser\<close>

lemma dismiss_each_never_raises: "fst (dismiss_each pg wait sels tr) = Inr ()"
  by (induction sels arbitrary: tr) (auto split: prod.splits sum.splits)

lemma dismissPopups_resolves: "fst (dismissPopups pg timeout tr) = Inr ()"
  by (simp add: dismissPopups_def dismiss_each_never_raises)

text \<open>
  C7: dismissPopups never rejects, whatever the page answers: with no overlay, with one,
  with several, and whether or not a close control was found or clicked.
\<close>

theorem dismissPopups_never_raises: "fst (dismissPopups pg timeout tr) = Inr ()"
  by (simp add: dismissPopups_def dismiss_each_never_raises)

theorem dismissPopups_never_raises_witness:
  "fst (dismissPopups stubborn_popup_page 4000 []) = Inr () \<and>
   fst (dismissPopups empty_results_page 4000 []) = Inr ()"
  using dismissPopups_never_raises [of stubborn_popup_page 4000 "[]"]
    dismissPopups_never_raises [of empty_results_page 4000 "[]"]
  by simp

lemma dismissals_failed [simp]: "dismissals ((a, Some e) # new) = dismissals new"
  by (simp add: dismissals_def)

lemma dismiss_each_grammar:
  "\<exists>new. snd (dismiss_each pg wait sels tr) = tr @ new \<and> stops_at_first_clicked wait sels new \<and>
     length (dismissals new) \<le> 1"
proof (induction sels arbitrary: tr)
  case Nil
  then show ?case by (simp add: dismissals_def)
next
  case (Cons s rest)
  let ?w = "WaitForVisible (First (Loc s)) wait"
  let ?c = "Click (First (Loc s)) None"
  show ?case
  proof (cases "outcome pg tr ?w")
    case (Some e)
    obtain new where new: "snd (dismiss_each pg wait rest (tr @ [(?w, Some e)])) = (tr @ [(?w, Some e)]) @ new"
      "stops_at_first_clicked wait rest new" "length (dismissals new) \<le> 1"
      using Cons.IH by blast
    have "snd (dismiss_each pg wait (s # rest) tr) = tr @ ((?w, Some e) # new)"
      using Some new(1) by (simp add: perform_def)
    moreover have "stops_at_first_clicked wait (s # rest) ((?w, Some e) # new)"
      using new(2) by simp
    moreover have "length (dismissals ((?w, Some e) # new)) \<le> 1"
      using new(3) by simp
    ultimately show ?thesis by blast
  next
    case None
    show ?thesis
    proof (cases "outcome pg (tr @ [(?w, None)]) ?c")
      case (Some e)
      let ?tr = "tr @ [(?w, None), (?c, Some e)]"
      obtain new where new: "snd (dismiss_each pg wait rest ?tr) = ?tr @ new"
        "stops_at_first_clicked wait rest new" "length (dismissals new) \<le> 1"
        using Cons.IH by blast
      have "snd (dismiss_each pg wait (s # rest) tr) = tr @ ((?w, None) # (?c, Some e) # new)"
        using None Some new(1) by (simp add: perform_def)
      moreover have "stops_at_first_clicked wait (s # rest) ((?w, None) # (?c, Some e) # new)"
        using new(2) by simp
      moreover have "length (dismissals ((?w, None) # (?c, Some e) # new)) \<le> 1"
        using new(3) by (simp add: dismissals_def is_click_def)
      ultimately show ?thesis by blast
    next
      case None2: None
      have "snd (dismiss_each pg wait (s # rest) tr) = tr @ [(?w, None), (?c, None)]"
        using None None2 by (simp add: perform_def)
      moreover have "stops_at_first_clicked wait (s # rest) [(?w, None), (?c, None)]"
        by simp
      moreover have "length (dismissals [(?w, None), (?c, None)]) \<le> 1"
        by (simp add: dismissals_def is_click_def)
      ultimately show ?thesis by blast
    qed
  qed
qed

lemma length_closeSelectors: "length closeSelectors = 7"
  by (simp add: closeSelectors_def)

text \<open>
  C8, as the code has it: dismissPopups goes through its seven selectors in order, waits
  for each up to a seventh of the budget, clicks a selector that became visible, and
  returns at the first click that resolves; a selector whose wait or whose click is
  rejected is followed by the next one. At most one click resolves per call.
\<close>

theorem dismissPopups_stops_at_first_clicked:
  "\<exists>new. snd (dismissPopups pg timeout tr) = tr @ new \<and>
      stops_at_first_clicked (timeout / 7) closeSelectors new \<and>
      length (dismissals new) \<le> 1"
  using dismiss_each_grammar [of pg "timeout / 7" closeSelectors tr]
  by (simp add: dismissPopups_def length_closeSelectors)

theorem dismissPopups_stops_at_first_clicked_witness:
  "stops_at_first_clicked (4000 / 7) closeSelectors (snd (dismissPopups stubborn_popup_page 4000 [])) \<and>
   length (dismissals (snd (dismissPopups stubborn_popup_page 4000 []))) \<le> 1"
  using dismissPopups_stops_at_first_clicked [of stubborn_popup_page 4000 "[]"]
  by auto

lemmas popup_eval = dismissPopups_def closeSelectors_def perform_def stubborn_popup_page_def

text \<open>
  C8, as stated, fails when the click on the first visible control is rejected: the
  \<open>catch\<close> swallows the rejection and the loop goes on to wait for, and click, the next
  selector instead of returning.
\<close>

theorem dismissPopups_click_fails_counterexample:
  "outcome stubborn_popup_page [] (WaitForVisible (First (Loc (hd closeSelectors))) (4000 / 7)) = None \<and>
   snd (dismissPopups stubborn_popup_page 4000 []) =
     [(WaitForVisible (First (Loc (closeSelectors ! 0))) (4000 / 7), None),
      (Click (First (Loc (closeSelectors ! 0))) None, Some (Error ''element intercepts pointer events'')),
      (WaitForVisible (First (Loc (closeSelectors ! 1))) (4000 / 7), None),
      (Click (First (Loc (closeSelectors ! 1))) None, None)] \<and>
   \<not> stops_at_first_visible (4000 / 7) closeSelectors (snd (dismissPopups stubborn_popup_page 4000 []))"
  by (simp add: popup_eval)


section \<open>Numbers read back from their text\<close>

text \<open>
  The digits of a natural number are digits and have the number as their value; the text
  Number::toString produces reads back, as a decimal numeral, as the number it was
  produced from.
\<close>

lemma is_digit_digit_char: "d < 10 \<Longrightarrow> is_digit (digit_char d)"
  unfolding is_digit_def digit_char_def by (rule nth_mem) simp

lemma ten_cases:
  "d < 10 \<Longrightarrow> d = 0 \<or> d = 1 \<or> d = 2 \<or> d = 3 \<or> d = 4 \<or> d = 5 \<or> d = 6 \<or> d = 7 \<or> d = 8 \<or> d = (9::nat)"
  by arith

lemma digit_val_digit_char: "d < 10 \<Longrightarrow> digit_val (digit_char d) = d"
  using ten_cases [of d] by (auto simp: digit_val_def digit_char_def)

lemma digits_val_snoc: "digits_val (ds @ [c]) = 10 * digits_val ds + digit_val c"
  by (simp add: digits_val_def)

lemma digits_val_nat_digits: "digits_val (nat_digits n) = n"
proof (induction n rule: nat_digits.induct)
  case (1 n)
  show ?case
  proof (cases "n < 10")
    case True
    then show ?thesis
      by (subst nat_digits.simps) (simp add: digits_val_def digit_val_digit_char)
  next
    case False
    then have "digits_val (nat_digits (n div 10)) = n div 10"
      using 1 by simp
    then show ?thesis
      using False
      by (subst nat_digits.simps) (simp add: digits_val_snoc digit_val_digit_char)
  qed
qed

lemma all_digits_nat_digits: "list_all is_digit (nat_digits n)"
proof (induction n rule: nat_digits.induct)
  case (1 n)
  show ?case
  proof (cases "n < 10")
    case True
    then show ?thesis
      by (subst nat_digits.simps) (simp add: is_digit_digit_char)
  next
    case False
    then show ?thesis
      using 1 by (subst nat_digits.simps) (simp add: is_digit_digit_char)
  qed
qed

lemma nat_digits_nonempty: "nat_digits n \<noteq> []"
  by (subst nat_digits.simps) simp

text \<open>There is no leading zero: a positive number has exactly as many digits as it needs.\<close>

lemma length_nat_digits:
  "0 < n \<Longrightarrow> 10 ^ (length (nat_digits n) - 1) \<le> n \<and> n < 10 ^ length (nat_digits n)"
proof (induction n rule: nat_digits.induct)
  case (1 n)
  show ?case
  proof (cases "n < 10")
    case True
    then show ?thesis
      using "1.prems" by (subst (1 2) nat_digits.simps) simp
  next
    case False
    define l where "l = length (nat_digits (n div 10))"
    have "0 < n div 10"
      using False by (simp add: div_greater_zero_iff)
    then have ih: "10 ^ (l - 1) \<le> n div 10" "n div 10 < 10 ^ l"
      using "1.IH" False by (simp_all add: l_def)
    have lpos: "0 < l"
      using nat_digits_nonempty [of "n div 10"] by (simp add: l_def)
    have len: "length (nat_digits n) = Suc l"
      using False by (subst nat_digits.simps) (simp add: l_def)
    have "10 ^ (l - 1) * 10 \<le> n"
      using ih(1) by (simp add: less_eq_div_iff_mult_less_eq)
    moreover have "(10::nat) ^ (l - 1) * 10 = 10 ^ l"
      using lpos by (cases l) simp_all
    moreover have "n < 10 ^ l * 10"
      using ih(2) by (simp add: div_less_iff_less_mult)
    ultimately show ?thesis
      by (simp add: len)
  qed
qed











lemma takeWhile_all_digits: "list_all is_digit ds \<Longrightarrow> takeWhile is_digit ds = ds"
  by (induction ds) simp_all

lemma dropWhile_all_digits: "list_all is_digit ds \<Longrightarrow> dropWhile is_digit ds = []"
  by (induction ds) simp_all















text \<open>parsePrice reads the digits of a natural number back as that number.\<close>

lemma comma_not_digit: "\<not> is_digit CHR '',''"
  by (simp add: is_digit_def)

lemma remove_commas_digits: "list_all is_digit ds \<Longrightarrow> remove_commas ds = ds"
  unfolding remove_commas_def
  by (induction ds) (auto simp: comma_not_digit)

lemma match_digits: "list_all is_digit ds \<Longrightarrow> ds \<noteq> [] \<Longrightarrow> match_digits_dots ds = Some ds"
proof -
  assume digits: "list_all is_digit ds" and nonempty: "ds \<noteq> []"
  have cls: "list_all is_digit_or_dot ds"
    using digits by (simp add: list_all_iff is_digit_or_dot_def)
  have a: "dropWhile (\<lambda>c. \<not> is_digit_or_dot c) ds = ds"
    using cls nonempty by (cases ds) simp_all
  have b: "takeWhile is_digit_or_dot ds = ds"
    using cls by (induction ds) simp_all
  show ?thesis
    unfolding match_digits_dots_def a b Let_def using nonempty by simp
qed

lemma parseFloat_digits:
  "list_all is_digit ds \<Longrightarrow> ds \<noteq> [] \<Longrightarrow> parseFloat ds = Num (of_nat (digits_val ds))"
  by (simp add: parseFloat_def takeWhile_all_digits dropWhile_all_digits)

lemma parsePrice_nat_digits: "parsePrice (nat_digits m) = Some (Num (of_nat m))"
  by (simp add: parsePrice_def remove_commas_digits match_digits parseFloat_digits
      all_digits_nat_digits nat_digits_nonempty digits_val_nat_digits)

section \<open>Properties of applyPriceFilter\<close>





lemma navigations_perform:
  "navigations (snd (perform pg a tr)) = navigations tr @ (case a of Goto u _ \<Rightarrow> [u] | _ \<Rightarrow> [])"
  by (simp add: perform_def navigations_def split: option.splits)




lemma navigations_sidebarPath: "navigations (snd (sidebarPath pg lo hi tr)) = navigations tr"
  by (simp add: sidebarPath_def perform_def navigations_def split: option.splits)

lemma navigations_sleep: "navigations (sleep t tr) = navigations tr"
  by (simp add: sleep_def navigations_def)


lemma sidebarPath_result:
  "fst (sidebarPath pg lo hi tr) = Inr () \<or> (\<exists>e. fst (sidebarPath pg lo hi tr) = Inl e)"
  by (cases "fst (sidebarPath pg lo hi tr)") auto

lemma applyPriceFilter_sidebar_ok:
  "fst (sidebarPath pg lo hi tr) = Inr () \<Longrightarrow>
   applyPriceFilter pg lo hi tr =
     dismissPopups pg 4000 (snd (sidebarPath pg lo hi tr) @ [(Sleep 4000, None)])"
  by (cases "sidebarPath pg lo hi tr") (simp add: applyPriceFilter_def sleep_def RESULTS_WAIT_def)

lemma applyPriceFilter_fallback_ok:
  "fst (sidebarPath pg lo hi tr) = Inl e \<Longrightarrow>
   urlPath pg lo hi (snd (sidebarPath pg lo hi tr)) = (Inr (), tr2) \<Longrightarrow>
   applyPriceFilter pg lo hi tr = dismissPopups pg 4000 (tr2 @ [(Sleep 4000, None)])"
  by (cases "sidebarPath pg lo hi tr") (simp add: applyPriceFilter_def sleep_def RESULTS_WAIT_def)

lemma applyPriceFilter_fallback_fails:
  "fst (sidebarPath pg lo hi tr) = Inl e \<Longrightarrow>
   urlPath pg lo hi (snd (sidebarPath pg lo hi tr)) = (Inl e', tr2) \<Longrightarrow>
   applyPriceFilter pg lo hi tr = (Inl e', tr2)"
  by (cases "sidebarPath pg lo hi tr") (simp add: applyPriceFilter_def)


lemma urlPath_elim:
  obtains (invalid) "page_url pg tr = None" "urlPath pg lo hi tr = (Inl TypeError, tr)"
  | (nav_ok) u where "page_url pg tr = Some u"
      "urlPath pg lo hi tr = (Inr (), tr @ [(Goto (filteredUrl u lo hi) 30000, None)])"
  | (nav_failed) u e where "page_url pg tr = Some u"
      "urlPath pg lo hi tr = (Inl e, tr @ [(Goto (filteredUrl u lo hi) 30000, Some e)])"
  by (cases "page_url pg tr"; cases "outcome pg tr (Goto (filteredUrl (the (page_url pg tr)) lo hi) 30000)")
    (auto simp: urlPath_def perform_def)

lemma dismissPopups_extends: "\<exists>new. snd (dismissPopups pg timeout tr) = tr @ new"
  using dismiss_each_grammar [of pg _ closeSelectors tr] unfolding dismissPopups_def by blast

lemma String_PRICE_MIN: "String PRICE_MIN = ''500''"
  unfolding PRICE_MIN_def by code_simp

lemma String_PRICE_MAX: "String PRICE_MAX = ''5000''"
  unfolding PRICE_MAX_def by code_simp




lemmas filter_eval = applyPriceFilter_def sidebarPath_def urlPath_def perform_def sleep_def
  dismissPopups_def closeSelectors_def RESULTS_WAIT_def priceMinInput_def priceMaxInput_def
  priceApplyBtn_def String_PRICE_MIN String_PRICE_MAX



text \<open>
  C5, as the code has it: applyPriceFilter rejects only with an error of the URL path
  (address parsing or navigation), and only after the sidebar path failed; every failure
  of the sidebar path is swallowed and followed by the URL path; and a rejected \<open>fill\<close>
  of the minimum input is such a failure of the sidebar path.
\<close>

theorem applyPriceFilter_swallows_sidebar_errors:
  "(fst (applyPriceFilter pg lo hi tr) = Inl e \<longrightarrow>
      (\<exists>e'. fst (sidebarPath pg lo hi tr) = Inl e') \<and>
      urlPath pg lo hi (snd (sidebarPath pg lo hi tr)) = (Inl e, snd (applyPriceFilter pg lo hi tr))) \<and>
   (fst (sidebarPath pg lo hi tr) = Inl e1 \<longrightarrow>
      (\<exists>rest. snd (applyPriceFilter pg lo hi tr) =
         snd (urlPath pg lo hi (snd (sidebarPath pg lo hi tr))) @ rest)) \<and>
   (outcome pg tr (WaitForVisible priceMinInput 8000) = None \<and>
    outcome pg (tr @ [(WaitForVisible priceMinInput 8000, None)]) (Fill priceMinInput (String lo)) = Some e2
    \<longrightarrow> sidebarPath pg lo hi tr =
          (Inl e2, tr @ [(WaitForVisible priceMinInput 8000, None), (Fill priceMinInput (String lo), Some e2)]))"
proof (intro conjI impI)
  assume raised: "fst (applyPriceFilter pg lo hi tr) = Inl e"
  show failed: "\<exists>e'. fst (sidebarPath pg lo hi tr) = Inl e'"
  proof (rule ccontr)
    assume "\<not> (\<exists>e'. fst (sidebarPath pg lo hi tr) = Inl e')"
    then have "fst (sidebarPath pg lo hi tr) = Inr ()"
      using sidebarPath_result [of pg lo hi tr] by simp
    then have "applyPriceFilter pg lo hi tr =
        dismissPopups pg 4000 (snd (sidebarPath pg lo hi tr) @ [(Sleep 4000, None)])"
      by (rule applyPriceFilter_sidebar_ok)
    then show False
      using raised by (simp add: dismissPopups_resolves)
  qed
  then obtain e' where e': "fst (sidebarPath pg lo hi tr) = Inl e'" ..
  obtain r tr2 where u: "urlPath pg lo hi (snd (sidebarPath pg lo hi tr)) = (r, tr2)"
    by (cases "urlPath pg lo hi (snd (sidebarPath pg lo hi tr))")
  show "urlPath pg lo hi (snd (sidebarPath pg lo hi tr)) = (Inl e, snd (applyPriceFilter pg lo hi tr))"
  proof (cases r)
    case (Inl e0)
    then show ?thesis
      using applyPriceFilter_fallback_fails [OF e', of e0 tr2] u raised by simp
  next
    case (Inr x)
    then have "applyPriceFilter pg lo hi tr = dismissPopups pg 4000 (tr2 @ [(Sleep 4000, None)])"
      using applyPriceFilter_fallback_ok [OF e', of tr2] u by simp
    then show ?thesis
      using raised by (simp add: dismissPopups_resolves)
  qed
next
  assume e1: "fst (sidebarPath pg lo hi tr) = Inl e1"
  obtain r tr2 where u: "urlPath pg lo hi (snd (sidebarPath pg lo hi tr)) = (r, tr2)"
    by (cases "urlPath pg lo hi (snd (sidebarPath pg lo hi tr))")
  show "\<exists>rest. snd (applyPriceFilter pg lo hi tr) =
         snd (urlPath pg lo hi (snd (sidebarPath pg lo hi tr))) @ rest"
  proof (cases r)
    case (Inl e0)
    then show ?thesis
      using applyPriceFilter_fallback_fails [OF e1, of e0 tr2] u by simp
  next
    case (Inr x)
    then have a: "applyPriceFilter pg lo hi tr = dismissPopups pg 4000 (tr2 @ [(Sleep 4000, None)])"
      using applyPriceFilter_fallback_ok [OF e1, of tr2] u by simp
    obtain new where "snd (dismissPopups pg 4000 (tr2 @ [(Sleep 4000, None)])) = (tr2 @ [(Sleep 4000, None)]) @ new"
      using dismissPopups_extends by blast
    then show ?thesis
      using a u by simp
  qed
next
  assume "outcome pg tr (WaitForVisible priceMinInput 8000) = None \<and>
    outcome pg (tr @ [(WaitForVisible priceMinInput 8000, None)]) (Fill priceMinInput (String lo)) = Some e2"
  then show "sidebarPath pg lo hi tr =
          (Inl e2, tr @ [(WaitForVisible priceMinInput 8000, None), (Fill priceMinInput (String lo), Some e2)])"
    by (simp add: sidebarPath_def perform_def)
qed

theorem applyPriceFilter_swallows_sidebar_errors_witness:
  "fst (applyPriceFilter offline_page PRICE_MIN PRICE_MAX []) = Inl (Error ''net::ERR_INTERNET_DISCONNECTED'') \<and>
   fst (sidebarPath offline_page PRICE_MIN PRICE_MAX []) = Inl TimeoutError \<and>
   urlPath offline_page PRICE_MIN PRICE_MAX (snd (sidebarPath offline_page PRICE_MIN PRICE_MAX [])) =
     (Inl (Error ''net::ERR_INTERNET_DISCONNECTED''), snd (applyPriceFilter offline_page PRICE_MIN PRICE_MAX [])) \<and>
   sidebarPath fill_fails_page PRICE_MIN PRICE_MAX [] =
     (Inl (Error ''element is not editable''),
      [(WaitForVisible priceMinInput 8000, None),
       (Fill priceMinInput (String PRICE_MIN), Some (Error ''element is not editable''))])"
  using applyPriceFilter_swallows_sidebar_errors [of offline_page PRICE_MIN PRICE_MAX "[]"
      "Error ''net::ERR_INTERNET_DISCONNECTED''" TimeoutError "Error ''element is not editable''"]
    applyPriceFilter_swallows_sidebar_errors [of fill_fails_page PRICE_MIN PRICE_MAX "[]"
      "Error ''net::ERR_INTERNET_DISCONNECTED''" "Error ''element is not editable''"
      "Error ''element is not editable''"]
  by (simp add: filter_eval offline_page_def fill_fails_page_def)

text \<open>
  C5, as stated, fails: on a page whose minimum input is visible but rejects \<open>fill\<close>,
  the error does not reach the caller; the URL path navigates and the call resolves.
\<close>

theorem applyPriceFilter_fill_error_counterexample:
  "outcome fill_fails_page [(WaitForVisible priceMinInput 8000, None)] (Fill priceMinInput (String PRICE_MIN)) =
     Some (Error ''element is not editable'') \<and>
   applyPriceFilter fill_fails_page PRICE_MIN PRICE_MAX [] =
     (Inr (),
      [(WaitForVisible priceMinInput 8000, None),
       (Fill priceMinInput ''500'', Some (Error ''element is not editable'')),
       (Goto (filteredUrl results_url PRICE_MIN PRICE_MAX) 30000, None),
       (Sleep 4000, None),
       (WaitForVisible (First (Loc (closeSelectors ! 0))) (4000 / 7), None),
       (Click (First (Loc (closeSelectors ! 0))) None, None)])"
  by (simp add: filter_eval fill_fails_page_def)

text \<open>
  C6, as the code has it: a call that resolves has completed exactly one path, either the
  sidebar path (without any navigation) or, after the sidebar path failed, the URL path
  (one navigation that resolved), followed by the pause of 4000 ms and one run of the
  popup dismisser. A call that rejects does so inside the URL path, and its trace ends
  there: no pause and no popup dismissal follow.
\<close>

theorem applyPriceFilter_settles_after_completed_path:
  "(fst (applyPriceFilter pg lo hi tr) = Inr () \<longrightarrow>
      (\<exists>path. snd (applyPriceFilter pg lo hi tr) =
                 snd (dismissPopups pg 4000 (path @ [(Sleep 4000, None)])) \<and>
         (sidebarPath pg lo hi tr = (Inr (), path) \<and> navigations path = navigations tr \<or>
          (\<exists>e1 u. fst (sidebarPath pg lo hi tr) = Inl e1 \<and>
             page_url pg (snd (sidebarPath pg lo hi tr)) = Some u \<and>
             path = snd (sidebarPath pg lo hi tr) @ [(Goto (filteredUrl u lo hi) 30000, None)])))) \<and>
   (fst (applyPriceFilter pg lo hi tr) = Inl e \<longrightarrow>
      (\<exists>e1. fst (sidebarPath pg lo hi tr) = Inl e1) \<and>
      (page_url pg (snd (sidebarPath pg lo hi tr)) = None \<and> e = TypeError \<and>
         snd (applyPriceFilter pg lo hi tr) = snd (sidebarPath pg lo hi tr) \<or>
       (\<exists>u. page_url pg (snd (sidebarPath pg lo hi tr)) = Some u \<and>
          snd (applyPriceFilter pg lo hi tr) =
            snd (sidebarPath pg lo hi tr) @ [(Goto (filteredUrl u lo hi) 30000, Some e)])))"
proof (intro conjI impI)
  let ?tr1 = "snd (sidebarPath pg lo hi tr)"
  assume ok: "fst (applyPriceFilter pg lo hi tr) = Inr ()"
  show "\<exists>path. snd (applyPriceFilter pg lo hi tr) =
                 snd (dismissPopups pg 4000 (path @ [(Sleep 4000, None)])) \<and>
         (sidebarPath pg lo hi tr = (Inr (), path) \<and> navigations path = navigations tr \<or>
          (\<exists>e1 u. fst (sidebarPath pg lo hi tr) = Inl e1 \<and>
             page_url pg ?tr1 = Some u \<and>
             path = ?tr1 @ [(Goto (filteredUrl u lo hi) 30000, None)]))"
  proof (cases "fst (sidebarPath pg lo hi tr)")
    case (Inr x)
    then have s: "sidebarPath pg lo hi tr = (Inr (), ?tr1)"
      by (cases "sidebarPath pg lo hi tr") simp
    have "snd (applyPriceFilter pg lo hi tr) = snd (dismissPopups pg 4000 (?tr1 @ [(Sleep 4000, None)]))"
      using applyPriceFilter_sidebar_ok [of pg lo hi tr] Inr by simp
    then show ?thesis
      using s navigations_sidebarPath [of pg lo hi tr] by blast
  next
    case (Inl e1)
    show ?thesis
    proof (cases rule: urlPath_elim [where pg = pg and tr = ?tr1 and lo = lo and hi = hi])
      case invalid
      then show ?thesis
        using applyPriceFilter_fallback_fails [OF Inl invalid(2)] ok by simp
    next
      case (nav_ok u)
      then have "applyPriceFilter pg lo hi tr =
          dismissPopups pg 4000 ((?tr1 @ [(Goto (filteredUrl u lo hi) 30000, None)]) @ [(Sleep 4000, None)])"
        using applyPriceFilter_fallback_ok [OF Inl] by simp
      then have "snd (applyPriceFilter pg lo hi tr) =
          snd (dismissPopups pg 4000 ((?tr1 @ [(Goto (filteredUrl u lo hi) 30000, None)]) @ [(Sleep 4000, None)]))"
        by simp
      then show ?thesis
        using Inl nav_ok(1) by blast
    next
      case (nav_failed u e0)
      then show ?thesis
        using applyPriceFilter_fallback_fails [OF Inl nav_failed(2)] ok by simp
    qed
  qed
next
  let ?tr1 = "snd (sidebarPath pg lo hi tr)"
  assume raised: "fst (applyPriceFilter pg lo hi tr) = Inl e"
  show failed: "\<exists>e1. fst (sidebarPath pg lo hi tr) = Inl e1"
  proof (rule ccontr)
    assume "\<not> (\<exists>e1. fst (sidebarPath pg lo hi tr) = Inl e1)"
    then have "fst (sidebarPath pg lo hi tr) = Inr ()"
      using sidebarPath_result [of pg lo hi tr] by simp
    then have "applyPriceFilter pg lo hi tr = dismissPopups pg 4000 (?tr1 @ [(Sleep 4000, None)])"
      by (rule applyPriceFilter_sidebar_ok)
    then show False
      using raised by (simp add: dismissPopups_resolves)
  qed
  then obtain e1 where e1: "fst (sidebarPath pg lo hi tr) = Inl e1" ..
  show "page_url pg ?tr1 = None \<and> e = TypeError \<and> snd (applyPriceFilter pg lo hi tr) = ?tr1 \<or>
       (\<exists>u. page_url pg ?tr1 = Some u \<and>
          snd (applyPriceFilter pg lo hi tr) = ?tr1 @ [(Goto (filteredUrl u lo hi) 30000, Some e)])"
  proof (cases rule: urlPath_elim [where pg = pg and tr = ?tr1 and lo = lo and hi = hi])
    case invalid
    then show ?thesis
      using applyPriceFilter_fallback_fails [OF e1 invalid(2)] raised by simp
  next
    case (nav_ok u)
    then have "applyPriceFilter pg lo hi tr =
        dismissPopups pg 4000 ((?tr1 @ [(Goto (filteredUrl u lo hi) 30000, None)]) @ [(Sleep 4000, None)])"
      using applyPriceFilter_fallback_ok [OF e1] by simp
    then show ?thesis
      using raised by (simp add: dismissPopups_resolves)
  next
    case (nav_failed u e0)
    then show ?thesis
      using applyPriceFilter_fallback_fails [OF e1 nav_failed(2)] raised by simp
  qed
qed


theorem applyPriceFilter_settles_after_completed_path_witness:
  "fst (applyPriceFilter five_cards_page PRICE_MIN PRICE_MAX []) = Inr () \<and>
   sidebarPath five_cards_page PRICE_MIN PRICE_MAX [] =
     (Inr (),
      [(WaitForVisible priceMinInput 8000, None), (Fill priceMinInput ''500'', None),
       (Fill priceMaxInput ''5000'', None), (Click priceApplyBtn (Some 5000), None)]) \<and>
   snd (applyPriceFilter five_cards_page PRICE_MIN PRICE_MAX []) =
     snd (dismissPopups five_cards_page 4000
       ([(WaitForVisible priceMinInput 8000, None), (Fill priceMinInput ''500'', None),
         (Fill priceMaxInput ''5000'', None), (Click priceApplyBtn (Some 5000), None)] @
        [(Sleep 4000, None)])) \<and>
   fst (applyPriceFilter offline_page PRICE_MIN PRICE_MAX []) = Inl (Error ''net::ERR_INTERNET_DISCONNECTED'') \<and>
   snd (applyPriceFilter offline_page PRICE_MIN PRICE_MAX []) =
     snd (sidebarPath offline_page PRICE_MIN PRICE_MAX []) @
     [(Goto (filteredUrl results_url PRICE_MIN PRICE_MAX) 30000, Some (Error ''net::ERR_INTERNET_DISCONNECTED''))]"
  using applyPriceFilter_settles_after_completed_path [of five_cards_page PRICE_MIN PRICE_MAX "[]" TimeoutError]
    applyPriceFilter_settles_after_completed_path [of offline_page PRICE_MIN PRICE_MAX "[]"
      "Error ''net::ERR_INTERNET_DISCONNECTED''"]
  by (simp add: filter_eval offline_page_def five_cards_page_def)


text \<open>
  C6, as stated, fails when the navigation of the URL path is rejected: the call ends
  with that error, without the pause and without running the popup dismisser.
\<close>

theorem applyPriceFilter_no_settle_counterexample:
  "applyPriceFilter offline_page PRICE_MIN PRICE_MAX [] =
     (Inl (Error ''net::ERR_INTERNET_DISCONNECTED''),
      [(WaitForVisible priceMinInput 8000, Some TimeoutError),
       (Goto (filteredUrl results_url PRICE_MIN PRICE_MAX) 30000, Some (Error ''net::ERR_INTERNET_DISCONNECTED''))])"
  by (simp add: filter_eval offline_page_def)

section \<open>Properties of openProduct\<close>

text \<open>
  With at least one card, an index at or beyond the count is clamped: the card clicked is
  the last one, at \<open>count - 1\<close>. The "no products" error needs the first card to have
  become visible and \<open>count()\<close> to be 0 afterwards; a rejected wait ends the call before
  the count is read.
\<close>

lemma openProduct_wait_first:
  "outcome pg tr (WaitForVisible (First productCards) 15000) = Some e \<Longrightarrow>
   openProduct pg index tr = (Inl e, tr @ [(WaitForVisible (First productCards) 15000, Some e)])"
  by (simp add: openProduct_def perform_def)

lemma openProduct_no_products:
  "outcome pg tr (WaitForVisible (First productCards) 15000) = None \<Longrightarrow>
   count_of pg (tr @ [(WaitForVisible (First productCards) 15000, None)]) productCards = 0 \<Longrightarrow>
   openProduct pg index tr =
     (Inl (Error ''No products found to open''), tr @ [(WaitForVisible (First productCards) 15000, None)])"
  by (simp add: openProduct_def perform_def)

lemma openProduct_clamps:
  assumes "outcome pg tr (WaitForVisible (First productCards) 15000) = None"
    and "count_of pg (tr @ [(WaitForVisible (First productCards) 15000, None)]) productCards = count"
    and "1 \<le> count" and "int count \<le> index"
  shows "\<exists>r rest. snd (openProduct pg index tr) =
           tr @ (WaitForVisible (First productCards) 15000, None) #
                (Click (Nth productCards (int count - 1)) (Some 10000), r) # rest"
proof -
  let ?tr1 = "tr @ [(WaitForVisible (First productCards) 15000, None)]"
  let ?c = "Click (Nth productCards (int count - 1)) (Some 10000)"
  have m: "min index (int count - 1) = int count - 1"
    using assms(4) by simp
  have unfolded: "openProduct pg index tr =
     (case perform pg ?c ?tr1 of
        (Inl e, tr2) \<Rightarrow> (Inl e, tr2)
      | (Inr _, tr2) \<Rightarrow>
          (case popup_event pg tr2 of
             Some newPage \<Rightarrow>
               (case perform pg (WaitForLoadState newPage 30000) tr2 of
                  (Inl e, tr3) \<Rightarrow> (Inl e, tr3)
                | (Inr _, tr3) \<Rightarrow> (Inr newPage, tr3))
           | None \<Rightarrow>
               (case perform pg (WaitForLoadState ThisPage 30000) tr2 of
                  (Inl e, tr3) \<Rightarrow> (Inl e, tr3)
                | (Inr _, tr3) \<Rightarrow> (Inr ThisPage, tr3))))"
    using assms(1,2,3) by (simp add: openProduct_def perform_def [of pg "WaitForVisible _ _"] m)
  show ?thesis
    unfolding unfolded by (simp add: perform_def split: option.splits)
qed

text \<open>
  C3: on a results page without any product card, openProduct does not raise the
  "No products found to open" error; it rejects with the timeout of the wait for the
  first card, which runs before the count is checked.
\<close>

theorem openProduct_no_cards_times_out:
  "count_of empty_results_page [] productCards = 0 \<and>
   openProduct empty_results_page 0 [] =
     (Inl TimeoutError, [(WaitForVisible (First productCards) 15000, Some TimeoutError)]) \<and>
   fst (openProduct empty_results_page 0 []) \<noteq> Inl (Error ''No products found to open'')"
  by (simp add: openProduct_def perform_def empty_results_page_def)

end
